theory Spec2Isabelle
  imports Complex_Main "HOL-Library.Word" "HOL-Library.Signed_Division"
begin

unbundle bit_operations_syntax

section \<open>Machine types of \<^verbatim>\<open>video_core/pica_types.h\<close>\<close>

text \<open>
  The header works on \<^verbatim>\<open>int16_t\<close>, \<^verbatim>\<open>uint16_t\<close>, \<^verbatim>\<open>u32\<close>, \<^verbatim>\<open>int\<close> and \<^verbatim>\<open>float\<close>.
  \<^item> \<^verbatim>\<open>int16_t\<close>, \<^verbatim>\<open>uint16_t\<close> and \<^verbatim>\<open>u32\<close> are words; \<open>sint\<close> reads a word as two's
    complement, \<open>uint\<close> as unsigned.
  \<^item> C++ promotes both 16-bit types to \<^verbatim>\<open>int\<close> (32 bits) before any arithmetic. The
    promoted computations are written on \<open>int\<close>; the lemmas \<open>*_fits_int\<close> below show
    that no sum, difference, product or scaled dividend of the fixed-point class leaves
    the 32-bit range, so nothing is lost by computing on unbounded integers.
  \<^item> \<^verbatim>\<open>static_cast<int16_t>\<close> of an \<^verbatim>\<open>int\<close> keeps the low 16 bits: \<open>int16\<close>.
  \<^item> \<^verbatim>\<open>/\<close> on \<^verbatim>\<open>int\<close> truncates toward zero: \<open>sdiv\<close>. A zero divisor is the one
    fault of the header (the native integer division fault); it is a value of \<open>fault\<close>.
  \<^item> a \<^verbatim>\<open>float\<close> is its IEEE 754 binary32 bit pattern, since \<^verbatim>\<open>FromRaw\<close> builds
    floats bit by bit with \<^verbatim>\<open>memcpy\<close>.
\<close>

type_synonym s16 = "16 word"
type_synonym u16 = "16 word"
type_synonym u32 = "32 word"
type_synonym f32 = "32 word"

datatype fault = DivisionByZero

definition int16 :: "int \<Rightarrow> s16" where
  "int16 k = word_of_int k"

definition fits_int :: "int \<Rightarrow> bool" where
  "fits_int k \<longleftrightarrow> - (2 ^ 31) \<le> k \<and> k < 2 ^ 31"

subsection \<open>The binary32 encoding\<close>

text \<open>
  Bit 31 is the sign, bits 23 to 30 the biased exponent, bits 0 to 22 the fraction.
  \<open>isnan\<close> is \<^verbatim>\<open>std::isnan\<close>, \<open>f32_eq0\<close> is the comparison \<^verbatim>\<open>x == 0.f\<close> (true of both
  zeros), and \<open>f32_real\<close> is the number a finite float stands for (\<open>None\<close> for NaN and
  the infinities).
\<close>

definition f32_sign :: "f32 \<Rightarrow> bool" where
  "f32_sign w = bit w 31"

definition f32_exponent :: "f32 \<Rightarrow> nat" where
  "f32_exponent w = unat (take_bit 8 (drop_bit 23 w))"

definition f32_fraction :: "f32 \<Rightarrow> nat" where
  "f32_fraction w = unat (take_bit 23 w)"

definition isnan :: "f32 \<Rightarrow> bool" where
  "isnan w \<longleftrightarrow> f32_exponent w = 255 \<and> f32_fraction w \<noteq> 0"

definition isinf :: "f32 \<Rightarrow> bool" where
  "isinf w \<longleftrightarrow> f32_exponent w = 255 \<and> f32_fraction w = 0"

definition f32_eq0 :: "f32 \<Rightarrow> bool" where
  "f32_eq0 w \<longleftrightarrow> f32_exponent w = 0 \<and> f32_fraction w = 0"

definition f32_magnitude :: "f32 \<Rightarrow> real" where
  "f32_magnitude w =
     (let e = f32_exponent w; m = f32_fraction w
      in if e = 0 then real m / 2 ^ 149
         else if e < 150 then real (2 ^ 23 + m) / 2 ^ (150 - e)
         else real (2 ^ 23 + m) * 2 ^ (e - 150))"

definition f32_real :: "f32 \<Rightarrow> real option" where
  "f32_real w =
     (if f32_exponent w = 255 then None
      else Some (if f32_sign w then - f32_magnitude w else f32_magnitude w))"

definition f32_pos_zero :: f32 where
  "f32_pos_zero = 0x00000000"

definition f32_neg_zero :: f32 where
  "f32_neg_zero = 0x80000000"

definition f32_pos_inf :: f32 where
  "f32_pos_inf = 0x7F800000"

definition f32_neg_inf :: f32 where
  "f32_neg_inf = 0xFF800000"

definition f32_qnan :: f32 where
  "f32_qnan = 0x7FC00000"

text \<open>\<^verbatim>\<open>::round\<close>: to the nearest integer, halfway cases away from zero.\<close>

definition c_round :: "real \<Rightarrow> int" where
  "c_round x = (if 0 \<le> x then \<lfloor>x + 1 / 2\<rfloor> else - \<lfloor>- x + 1 / 2\<rfloor>)"

section \<open>\<^verbatim>\<open>class Fix12P4\<close>\<close>

record Fix12P4 =
  value16 :: s16

definition FracMask :: s16 where
  "FracMask = int16 0xF"

definition IntMask :: s16 where
  "IntMask = int16 (NOT 0xF)"

text \<open>\<^verbatim>\<open>FromInt(int_val, frac_val = 0)\<close>; the default argument is passed explicitly.\<close>

definition FromInt :: "s16 \<Rightarrow> u16 \<Rightarrow> Fix12P4" where
  "FromInt int_val frac_val =
     \<lparr>value16 = int16 (((sint int_val * 16) AND sint IntMask) OR (uint frac_val AND sint FracMask))\<rparr>"

text \<open>
  \<^verbatim>\<open>FromFloat\<close>: \<^verbatim>\<open>static_cast<int16_t>(::round(float_val * 16.0f))\<close>. Scaling a float
  by 16 is exact unless it overflows to an infinity. C++ defines the conversion of a
  floating value to \<^verbatim>\<open>int16_t\<close> only when the value, truncated, fits the type; for a
  NaN, an infinity or a rounded value outside \<open>[-32768, 32767]\<close> the model returns
  \<open>None\<close> and commits to no result.
\<close>

definition FromFloat :: "f32 \<Rightarrow> Fix12P4 option" where
  "FromFloat float_val =
     (case f32_real float_val of
        None \<Rightarrow> None
      | Some x \<Rightarrow>
          (let r = c_round (x * 16)
           in if - 32768 \<le> r \<and> r \<le> 32767 then Some \<lparr>value16 = int16 r\<rparr> else None))"

definition Fix_Zero :: Fix12P4 where
  "Fix_Zero = \<lparr>value16 = int16 0\<rparr>"

text \<open>\<^verbatim>\<open>Int()\<close> (the name \<open>Int\<close> is HOL's intersection) and \<^verbatim>\<open>Frac()\<close>.\<close>

definition IntPart :: "Fix12P4 \<Rightarrow> s16" where
  "IntPart a = int16 ((sint (value16 a) AND sint IntMask) sdiv 16)"

definition Frac :: "Fix12P4 \<Rightarrow> u16" where
  "Frac a = word_of_int (sint (value16 a) AND sint FracMask)"

definition Floor :: "Fix12P4 \<Rightarrow> Fix12P4" where
  "Floor a = \<lparr>value16 = int16 (sint (value16 a) AND sint IntMask)\<rparr>"

definition Ceil :: "Fix12P4 \<Rightarrow> Fix12P4" where
  "Ceil a = Floor \<lparr>value16 = int16 (sint (value16 a) + sint FracMask)\<rparr>"

text \<open>
  The private helpers \<^verbatim>\<open>Multiply\<close> and \<^verbatim>\<open>Divide\<close>. \<^verbatim>\<open>Divide\<close> has no check of its
  divisor: with \<^verbatim>\<open>right == 0\<close> the \<^verbatim>\<open>int\<close> division itself faults (C++ leaves it
  undefined; the division instruction traps), which the model returns as
  \<open>Inl DivisionByZero\<close>.
\<close>

definition Multiply :: "s16 \<Rightarrow> s16 \<Rightarrow> s16" where
  "Multiply left right = int16 ((sint left * sint right) sdiv 16)"

definition Divide :: "s16 \<Rightarrow> s16 \<Rightarrow> fault + s16" where
  "Divide left right =
     (if sint right = 0 then Inl DivisionByZero
      else Inr (int16 ((sint left * 16) sdiv sint right)))"

text \<open>The binary operators \<^verbatim>\<open>+\<close>, \<^verbatim>\<open>-\<close>, \<^verbatim>\<open>*\<close>, \<^verbatim>\<open>/\<close>, \<^verbatim>\<open><\<close> and \<^verbatim>\<open>==\<close>.\<close>

definition Fix_plus :: "Fix12P4 \<Rightarrow> Fix12P4 \<Rightarrow> Fix12P4" where
  "Fix_plus a other = \<lparr>value16 = int16 (sint (value16 a) + sint (value16 other))\<rparr>"

definition Fix_minus :: "Fix12P4 \<Rightarrow> Fix12P4 \<Rightarrow> Fix12P4" where
  "Fix_minus a other = \<lparr>value16 = int16 (sint (value16 a) - sint (value16 other))\<rparr>"

definition Fix_times :: "Fix12P4 \<Rightarrow> Fix12P4 \<Rightarrow> Fix12P4" where
  "Fix_times a other = \<lparr>value16 = Multiply (value16 a) (value16 other)\<rparr>"

definition Fix_divide :: "Fix12P4 \<Rightarrow> Fix12P4 \<Rightarrow> fault + Fix12P4" where
  "Fix_divide a other =
     (case Divide (value16 a) (value16 other) of
        Inl e \<Rightarrow> Inl e
      | Inr v \<Rightarrow> Inr \<lparr>value16 = v\<rparr>)"

definition Fix_less :: "Fix12P4 \<Rightarrow> Fix12P4 \<Rightarrow> bool" where
  "Fix_less left right \<longleftrightarrow> sint (value16 left) < sint (value16 right)"

definition Fix_eq :: "Fix12P4 \<Rightarrow> Fix12P4 \<Rightarrow> bool" where
  "Fix_eq left right \<longleftrightarrow> value16 left = value16 right"

section \<open>\<^verbatim>\<open>template<unsigned M, unsigned E> struct Float\<close>\<close>

text \<open>
  The template parameters \<^verbatim>\<open>M\<close> and \<^verbatim>\<open>E\<close> are the type parameters \<open>'m\<close> and \<open>'e\<close>,
  read with \<open>LENGTH\<close> (numeral types: \<open>LENGTH(16) = 16\<close>). The only member is the
  stored native float, \<^verbatim>\<open>value\<close>.
\<close>

datatype ('m, 'e) Float = Float (value32: f32)

type_synonym float24 = "(16, 7) Float"
type_synonym float20 = "(12, 7) Float"
type_synonym float16 = "(10, 5) Float"

definition FromFloat32 :: "f32 \<Rightarrow> ('m, 'e) Float" where
  "FromFloat32 val = Float val"

text \<open>
  \<^verbatim>\<open>FromRaw(u32 hex)\<close>. \<^verbatim>\<open>width\<close>, \<^verbatim>\<open>bias\<close> and \<^verbatim>\<open>exponent\<close> are \<^verbatim>\<open>int\<close>s and
  \<^verbatim>\<open>1 << n\<close> is an \<^verbatim>\<open>int\<close> shift; an \<^verbatim>\<open>int\<close> meeting a \<^verbatim>\<open>u32\<close> in \<^verbatim>\<open>&\<close> or \<^verbatim>\<open>|\<close> is
  converted to \<^verbatim>\<open>u32\<close> (\<open>word_of_int\<close>). \<^verbatim>\<open>23 - M\<close> is written for \<^verbatim>\<open>M \<le> 23\<close>, which
  the three instantiations satisfy.
\<close>

definition FromRaw :: "u32 \<Rightarrow> ('m::len, 'e::len) Float" where
  "FromRaw hex =
     (let M = LENGTH('m::len); E = LENGTH('e::len);
          width = int M + int E + 1;
          bias = (128 :: int) - push_bit (E - 1) 1;
          exponent = uint (drop_bit M hex AND word_of_int (push_bit E 1 - 1));
          mantissa = hex AND word_of_int (push_bit M 1 - 1)
      in if hex AND word_of_int (push_bit (nat (width - 1)) 1 - 1) \<noteq> 0
         then Float (push_bit 31 (drop_bit (E + M) hex) OR push_bit (23 - M) mantissa
                     OR word_of_int (push_bit 23 (exponent + bias)))
         else Float (push_bit 31 (drop_bit (E + M) hex)))"

definition Float_Zero :: "('m, 'e) Float" where
  "Float_Zero = FromFloat32 f32_pos_zero"

definition ToFloat32 :: "('m, 'e) Float \<Rightarrow> f32" where
  "ToFloat32 a = value32 a"

text \<open>
  The arithmetic operators. The native \<^verbatim>\<open>float\<close> product, quotient, sum and difference
  are the platform's, not the header's: each operator takes the native operation as its
  first argument, and every theorem holds for whatever the platform computes.
\<close>

definition Float_times ::
  "(f32 \<Rightarrow> f32 \<Rightarrow> f32) \<Rightarrow> ('m, 'e) Float \<Rightarrow> ('m, 'e) Float \<Rightarrow> ('m, 'e) Float" where
  "Float_times fmul this flt =
     (if (f32_eq0 (value32 this) \<and> \<not> isnan (value32 flt)) \<or>
         (f32_eq0 (value32 flt) \<and> \<not> isnan (value32 this))
      then Float_Zero
      else FromFloat32 (fmul (ToFloat32 this) (ToFloat32 flt)))"

definition Float_divide ::
  "(f32 \<Rightarrow> f32 \<Rightarrow> f32) \<Rightarrow> ('m, 'e) Float \<Rightarrow> ('m, 'e) Float \<Rightarrow> ('m, 'e) Float" where
  "Float_divide fdiv this flt = FromFloat32 (fdiv (ToFloat32 this) (ToFloat32 flt))"

definition Float_plus ::
  "(f32 \<Rightarrow> f32 \<Rightarrow> f32) \<Rightarrow> ('m, 'e) Float \<Rightarrow> ('m, 'e) Float \<Rightarrow> ('m, 'e) Float" where
  "Float_plus fadd this flt = FromFloat32 (fadd (ToFloat32 this) (ToFloat32 flt))"

definition Float_minus ::
  "(f32 \<Rightarrow> f32 \<Rightarrow> f32) \<Rightarrow> ('m, 'e) Float \<Rightarrow> ('m, 'e) Float \<Rightarrow> ('m, 'e) Float" where
  "Float_minus fsub this flt = FromFloat32 (fsub (ToFloat32 this) (ToFloat32 flt))"

text \<open>
  The compound assignments \<^verbatim>\<open>*=\<close>, \<^verbatim>\<open>/=\<close>, \<^verbatim>\<open>+=\<close>, \<^verbatim>\<open>-=\<close> update \<^verbatim>\<open>value\<close> in place
  and return \<^verbatim>\<open>*this\<close>: each returns the object after the assignment.
\<close>

definition Float_times_assign ::
  "(f32 \<Rightarrow> f32 \<Rightarrow> f32) \<Rightarrow> ('m, 'e) Float \<Rightarrow> ('m, 'e) Float \<Rightarrow> ('m, 'e) Float" where
  "Float_times_assign fmul this flt =
     (if (f32_eq0 (value32 this) \<and> \<not> isnan (value32 flt)) \<or>
         (f32_eq0 (value32 flt) \<and> \<not> isnan (value32 this))
      then Float_Zero
      else Float (fmul (value32 this) (ToFloat32 flt)))"

definition Float_divide_assign ::
  "(f32 \<Rightarrow> f32 \<Rightarrow> f32) \<Rightarrow> ('m, 'e) Float \<Rightarrow> ('m, 'e) Float \<Rightarrow> ('m, 'e) Float" where
  "Float_divide_assign fdiv this flt = Float (fdiv (value32 this) (ToFloat32 flt))"

definition Float_plus_assign ::
  "(f32 \<Rightarrow> f32 \<Rightarrow> f32) \<Rightarrow> ('m, 'e) Float \<Rightarrow> ('m, 'e) Float \<Rightarrow> ('m, 'e) Float" where
  "Float_plus_assign fadd this flt = Float (fadd (value32 this) (ToFloat32 flt))"

definition Float_minus_assign ::
  "(f32 \<Rightarrow> f32 \<Rightarrow> f32) \<Rightarrow> ('m, 'e) Float \<Rightarrow> ('m, 'e) Float \<Rightarrow> ('m, 'e) Float" where
  "Float_minus_assign fsub this flt = Float (fsub (value32 this) (ToFloat32 flt))"

text \<open>\<^verbatim>\<open>operator==\<close> is the native comparison: false when an operand is NaN, and
  true of two zeros of either sign; otherwise the bit patterns are compared.\<close>

definition f32_eq :: "f32 \<Rightarrow> f32 \<Rightarrow> bool" where
  "f32_eq x y \<longleftrightarrow> \<not> isnan x \<and> \<not> isnan y \<and> ((f32_eq0 x \<and> f32_eq0 y) \<or> x = y)"

definition Float_eq :: "('m, 'e) Float \<Rightarrow> ('m, 'e) Float \<Rightarrow> bool" where
  "Float_eq this flt \<longleftrightarrow> f32_eq (ToFloat32 this) (ToFloat32 flt)"

section \<open>Definitions that follow the spec's words\<close>

text \<open>
  The number a fixed-point value stands for, in the spec's words: the represented real
  value equals \<open>r / 16\<close> for the signed raw integer \<open>r\<close>.
\<close>

definition represented :: "Fix12P4 \<Rightarrow> real" where
  "represented a = real_of_int (sint (value16 a)) / 16"

text \<open>
  Truncation of a real toward zero: what the spec calls truncating division, applied
  to the exact quotient. Used only to state what \<open>sdiv\<close> computes.
\<close>

definition trunc_toward_zero :: "real \<Rightarrow> int" where
  "trunc_toward_zero x = (if 0 \<le> x then \<lfloor>x\<rfloor> else \<lceil>x\<rceil>)"

text \<open>
  The bit pattern the spec gives for the normalized path of \<^verbatim>\<open>FromRaw\<close>:
  \<^verbatim>\<open>sign<<31 | (exponent+bias)<<23 | mantissa<<(23-M)\<close> with \<^verbatim>\<open>bias = 128 - 2^(E-1)\<close>,
  \<^verbatim>\<open>exponent = bits[M..M+E)\<close>, \<^verbatim>\<open>mantissa = bits[0..M)\<close> and \<^verbatim>\<open>sign = bit[M+E]\<close>.
\<close>

definition normalized_pattern :: "nat \<Rightarrow> nat \<Rightarrow> u32 \<Rightarrow> f32" where
  "normalized_pattern M E hex =
     (let sign = (if bit hex (M + E) then 1 else 0);
          exponent = take_bit E (drop_bit M hex);
          mantissa = take_bit M hex;
          bias = 128 - 2 ^ (E - 1)
      in push_bit 31 sign OR push_bit 23 (exponent + bias) OR push_bit (23 - M) mantissa)"

section \<open>Native float operations\<close>

text \<open>
  Modelled from IEEE 754, not from the repository: rounding to binary32 under the default
  mode (to nearest, ties to even), the product of two floats, and the conversion of an
  \<^verbatim>\<open>int\<close> to \<^verbatim>\<open>float\<close>. \<open>f32_round s m e\<close> is the float nearest to \<open>\<plusminus> m * 2 ^ e\<close>. A finite
  float is \<open>f32_significand * 2 ^ f32_scale\<close>, and the exact product of two of them is
  rounded by \<open>f32_round\<close>; every NaN result is the pattern \<open>f32_qnan\<close> (platforms differ in
  the payload they return). The theorems about \<^verbatim>\<open>operator*\<close> hold for any native product;
  \<open>f32_mul\<close> instantiates it where a statement is evaluated on concrete operands.
  \<open>f32_of_int\<close> gives the float argument that a call such as \<^verbatim>\<open>FromFloat(n)\<close> with an
  integer \<open>n\<close> passes.
\<close>

fun bit_length :: "nat \<Rightarrow> nat" where
  "bit_length n = (if n = 0 then 0 else Suc (bit_length (n div 2)))"

declare bit_length.simps [simp del]

definition f32_significand :: "f32 \<Rightarrow> nat" where
  "f32_significand w = (if f32_exponent w = 0 then f32_fraction w else 2 ^ 23 + f32_fraction w)"

definition f32_scale :: "f32 \<Rightarrow> int" where
  "f32_scale w = (if f32_exponent w = 0 then - 149 else int (f32_exponent w) - 150)"

definition round_nearest_even :: "nat \<Rightarrow> nat \<Rightarrow> nat" where
  "round_nearest_even m k =
     (let q = m div 2 ^ k; r = m mod 2 ^ k
      in if 2 ^ k < 2 * r \<or> (2 * r = 2 ^ k \<and> odd q) then q + 1 else q)"

definition f32_round :: "bool \<Rightarrow> nat \<Rightarrow> int \<Rightarrow> f32" where
  "f32_round s m e =
     (let sgn = (if s then 0x80000000 else 0 :: f32);
          e1 = max (e + int (bit_length m) - 24) (- 149);
          m1 = (if e \<le> e1 then round_nearest_even m (nat (e1 - e)) else m * 2 ^ nat (e - e1));
          e2 = (if m1 = 2 ^ 24 then e1 + 1 else e1);
          m2 = (if m1 = 2 ^ 24 then 2 ^ 23 else m1)
      in if m = 0 then sgn
         else if 104 < e2 then sgn OR 0x7F800000
         else if m2 < 2 ^ 23 then sgn OR of_nat m2
         else sgn OR push_bit 23 (word_of_int (e2 + 150)) OR of_nat (m2 - 2 ^ 23))"

definition f32_mul :: "f32 \<Rightarrow> f32 \<Rightarrow> f32" where
  "f32_mul x y =
     (let s = (f32_sign x \<noteq> f32_sign y)
      in if isnan x \<or> isnan y then f32_qnan
         else if isinf x \<or> isinf y then
           (if f32_eq0 x \<or> f32_eq0 y then f32_qnan
            else if s then f32_neg_inf else f32_pos_inf)
         else f32_round s (f32_significand x * f32_significand y) (f32_scale x + f32_scale y))"

definition f32_of_int :: "int \<Rightarrow> f32" where
  "f32_of_int n = f32_round (n < 0) (nat \<bar>n\<bar>) 0"

section \<open>Casts and promoted arithmetic\<close>

lemma sint16_bounds: "- 32768 \<le> sint (w :: s16) \<and> sint w \<le> 32767"
  using sint_ge [of w] sint_lt [of w] by simp

lemma int16_sint: "int16 (sint w) = w"
  by (simp add: int16_def)

lemma sint_int16: "- 32768 \<le> k \<Longrightarrow> k \<le> 32767 \<Longrightarrow> sint (int16 k) = k"
  unfolding int16_def
  by (simp add: sint_sbintrunc' signed_take_bit_int_eq_self)

lemma int16_and: "int16 (sint x AND sint y) = x AND y"
  by (simp add: int16_def of_int_and_eq)

lemma plus_fits_int: "fits_int (sint (x :: s16) + sint (y :: s16))"
  using sint16_bounds [of x] sint16_bounds [of y] by (simp add: fits_int_def)

lemma minus_fits_int: "fits_int (sint (x :: s16) - sint (y :: s16))"
  using sint16_bounds [of x] sint16_bounds [of y] by (simp add: fits_int_def)

lemma times16_fits_int: "fits_int (sint (x :: s16) * 16)"
  using sint16_bounds [of x] by (simp add: fits_int_def)

lemma times_fits_int: "fits_int (sint (x :: s16) * sint (y :: s16))"
proof -
  have "\<bar>sint x\<bar> \<le> 32768" "\<bar>sint y\<bar> \<le> 32768"
    using sint16_bounds [of x] sint16_bounds [of y] by auto
  then have "\<bar>sint x\<bar> * \<bar>sint y\<bar> \<le> 32768 * 32768"
    by (intro mult_mono) auto
  then have "\<bar>sint x * sint y\<bar> \<le> 1073741824"
    by (simp add: abs_mult)
  then have "- 1073741824 \<le> sint x * sint y \<and> sint x * sint y \<le> 1073741824"
    by (auto simp only: abs_le_iff)
  then show ?thesis by (simp add: fits_int_def)
qed

subsection \<open>\<open>sdiv\<close> truncates toward zero\<close>

lemma sdiv_trunc_toward_zero:
  fixes a b :: int
  assumes "b \<noteq> 0"
  shows "a sdiv b = trunc_toward_zero (real_of_int a / real_of_int b)"
proof -
  have pp: "x sdiv y = trunc_toward_zero (real_of_int x / real_of_int y)"
    if "0 \<le> x" "0 < y" for x y :: int
  proof -
    have "0 \<le> real_of_int x / real_of_int y" using that by simp
    moreover have "x sdiv y = x div y"
      using that by (cases "x = 0") (simp_all add: signed_divide_int_def)
    ultimately show ?thesis
      by (simp add: trunc_toward_zero_def floor_divide_of_int_eq)
  qed
  have np: "x sdiv y = trunc_toward_zero (real_of_int x / real_of_int y)"
    if "x < 0" "0 < y" for x y :: int
  proof -
    have "real_of_int x / real_of_int y < 0" using that by (simp add: divide_neg_pos)
    moreover have "x sdiv y = - ((- x) div y)"
      using that by (simp add: signed_divide_int_def)
    moreover have "\<lceil>real_of_int x / real_of_int y\<rceil> = - \<lfloor>real_of_int (- x) / real_of_int y\<rfloor>"
      by (simp add: ceiling_def)
    ultimately show ?thesis
      by (simp add: trunc_toward_zero_def floor_divide_of_int_eq del: of_int_minus)
  qed
  have neg: "x sdiv (- y) = - (x sdiv y)" for x y :: int
    by (simp add: signed_divide_int_def)
  have tneg: "trunc_toward_zero (- r) = - trunc_toward_zero r" for r :: real
    by (auto simp: trunc_toward_zero_def ceiling_def)
  have pos: "x sdiv y = trunc_toward_zero (real_of_int x / real_of_int y)"
    if "0 < y" for x y :: int
    using pp [of x y] np [of x y] that by (cases "0 \<le> x") auto
  show ?thesis
  proof (cases "0 < b")
    case True
    then show ?thesis by (rule pos)
  next
    case False
    with assms have "0 < - b" by simp
    from pos [OF this, of a]
    have "a sdiv (- b) = trunc_toward_zero (- (real_of_int a / real_of_int b))"
      by simp
    then show ?thesis by (simp add: neg tneg)
  qed
qed

text \<open>
  The same fact without reals: the quotient times the divisor is no further from zero
  than the dividend, misses it by less than the divisor, and has its sign.
\<close>

lemma sdiv_toward_zero_bounds:
  fixes a b :: int
  assumes "b \<noteq> 0"
  shows "\<bar>(a sdiv b) * b\<bar> \<le> \<bar>a\<bar> \<and> \<bar>a\<bar> < \<bar>(a sdiv b) * b\<bar> + \<bar>b\<bar> \<and> 0 \<le> (a sdiv b) * b * a"
proof -
  define q where "q = \<bar>a\<bar> div \<bar>b\<bar>"
  have q0: "0 \<le> q" unfolding q_def by (rule div_int_pos_iff [THEN iffD2]) simp
  have b0: "0 < \<bar>b\<bar>" using assms by simp
  have qb: "(a sdiv b) * b = sgn a * (q * \<bar>b\<bar>)"
    by (simp add: signed_divide_int_def q_def abs_sgn mult.assoc mult.left_commute)
  have lo: "q * \<bar>b\<bar> \<le> \<bar>a\<bar>"
    unfolding q_def using b0 by (metis div_mult_mod_eq le_add_same_cancel1 pos_mod_sign)
  have hi: "\<bar>a\<bar> < q * \<bar>b\<bar> + \<bar>b\<bar>"
    unfolding q_def using b0 by (metis add_less_cancel_left div_mult_mod_eq pos_mod_bound)
  have qb0: "0 \<le> q * \<bar>b\<bar>" using q0 by simp
  show ?thesis
  proof (cases "a = 0")
    case True
    then show ?thesis using b0 by simp
  next
    case False
    then have e1: "\<bar>sgn a * (q * \<bar>b\<bar>)\<bar> = q * \<bar>b\<bar>"
      using q0 by (simp add: abs_mult)
    have "sgn a * (q * \<bar>b\<bar>) * a = (q * \<bar>b\<bar>) * (a * sgn a)"
      by (simp only: ac_simps)
    also have "\<dots> = (q * \<bar>b\<bar>) * \<bar>a\<bar>"
      by (simp only: abs_sgn)
    finally have e2: "sgn a * (q * \<bar>b\<bar>) * a = (q * \<bar>b\<bar>) * \<bar>a\<bar>" .
    have "0 \<le> (q * \<bar>b\<bar>) * \<bar>a\<bar>"
      using q0 by (intro mult_nonneg_nonneg) simp_all
    then show ?thesis
      unfolding qb e1 e2 using lo hi by simp
  qed
qed

section \<open>The binary32 encoding: fields, rounding, conversions\<close>

text \<open>
  A pattern assembled from a sign, an eight-bit exponent and a fraction of at most 23
  bits has exactly these three fields.
\<close>

lemma fields_of_pattern:
  fixes s x' m' :: u32
  assumes "M \<le> 23"
  shows "take_bit 8 (drop_bit 23 (push_bit 31 s OR push_bit 23 (take_bit 8 x')
            OR push_bit (23 - M) (take_bit M m'))) = take_bit 8 x'"
    and "take_bit 23 (push_bit 31 s OR push_bit 23 (take_bit 8 x')
            OR push_bit (23 - M) (take_bit M m')) = push_bit (23 - M) (take_bit M m')"
    and "bit (push_bit 31 s OR push_bit 23 (take_bit 8 x')
            OR push_bit (23 - M) (take_bit M m')) 31 = bit s 0"
  using assms by (auto intro!: bit_word_eqI simp: bit_simps)

lemma biased_exponent:
  fixes y b :: u32
  assumes "unat b + 2 ^ E \<le> 256"
  shows "take_bit 8 (take_bit E y + b) = take_bit E y + b"
    and "unat (take_bit E y + b) = unat (take_bit E y) + unat b"
proof -
  have a: "unat (take_bit E y) < 2 ^ E"
    by (simp add: unsigned_take_bit_eq)
  with assms have lt: "unat (take_bit E y) + unat b < 256" by simp
  then have "unat (take_bit E y) + unat b < 2 ^ LENGTH(32)" by simp
  then show s: "unat (take_bit E y + b) = unat (take_bit E y) + unat b"
    by (simp only: unat_add_lem)
  have "unat (take_bit 8 (take_bit E y + b)) = take_bit 8 (unat (take_bit E y + b))"
    by (simp only: unsigned_take_bit_eq)
  also have "\<dots> = unat (take_bit E y + b) mod 256"
    by (simp only: take_bit_eq_mod) simp
  also have "\<dots> = unat (take_bit E y + b)"
    using lt by (simp add: s)
  finally show "take_bit 8 (take_bit E y + b) = take_bit E y + b"
    by (simp only: word_unat_eq_iff)
qed

subsection \<open>Constants and the native product\<close>

lemma f32_consts:
  "f32_eq0 f32_pos_zero" "f32_eq0 f32_neg_zero" "\<not> isnan f32_pos_zero" "\<not> isnan f32_neg_zero"
  "\<not> isnan f32_pos_inf" "isinf f32_pos_inf" "\<not> f32_eq0 f32_pos_inf"
  "isnan f32_qnan" "\<not> f32_eq0 f32_qnan"
  by (simp_all add: f32_eq0_def isnan_def isinf_def f32_exponent_def f32_fraction_def
        f32_pos_zero_def f32_neg_zero_def f32_pos_inf_def f32_qnan_def)

lemma nan_not_eq0: "isnan x \<Longrightarrow> \<not> f32_eq0 x"
  by (simp add: isnan_def f32_eq0_def)

text \<open>What the override replaces: the IEEE product of zero and infinity is a NaN.\<close>

lemma f32_mul_zero_inf: "isnan (f32_mul f32_pos_zero f32_pos_inf)"
  by (simp add: f32_mul_def f32_consts)

lemma f32_mul_nan: "isnan x \<or> isnan y \<Longrightarrow> isnan (f32_mul x y)"
  by (simp add: f32_mul_def Let_def f32_consts)

text \<open>A finite product: \<open>2.0 * 3.0 = 6.0\<close>.\<close>

lemma bit_length_numeral:
  "bit_length (numeral k) = Suc (bit_length (numeral k div 2))" "bit_length 0 = 0"
  "bit_length (Suc 0) = Suc 0"
  by (simp_all add: bit_length.simps)

lemma f32_mul_2_3: "f32_mul 0x40000000 0x40400000 = 0x40C00000"
  by (simp add: f32_mul_def isnan_def isinf_def f32_exponent_def f32_fraction_def f32_sign_def
        f32_significand_def f32_scale_def f32_round_def round_nearest_even_def
        bit_length_numeral Let_def)

subsection \<open>Integers below \<open>2 ^ 24\<close> convert exactly\<close>

lemma bit_length_bounds: "0 < a \<Longrightarrow> 2 ^ (bit_length a - 1) \<le> a \<and> a < 2 ^ bit_length a"
proof (induction a rule: bit_length.induct)
  case (1 n)
  show ?case
  proof (cases "n div 2 = 0")
    case True
    with 1(2) have "n = 1" by (simp add: div_eq_0_iff) 
    then show ?thesis by (simp add: bit_length.simps)
  next
    case False
    then have "0 < n div 2" by simp
    with 1 have ih: "2 ^ (bit_length (n div 2) - 1) \<le> n div 2 \<and> n div 2 < 2 ^ bit_length (n div 2)"
      by simp
    have pos: "0 < bit_length (n div 2)"
      using False by (simp add: bit_length.simps [of "n div 2"])
    have bl: "bit_length n = Suc (bit_length (n div 2))"
      using 1(2) by (simp add: bit_length.simps [of n])
    from pos have "(2 :: nat) ^ bit_length (n div 2) = 2 * 2 ^ (bit_length (n div 2) - 1)"
      by (cases "bit_length (n div 2)") simp_all
    with ih have "2 ^ bit_length (n div 2) \<le> 2 * (n div 2)" by simp
    also have "\<dots> \<le> n" by simp
    finally have lo: "2 ^ (bit_length n - 1) \<le> n" by (simp add: bl)
    from ih have "n div 2 + 1 \<le> 2 ^ bit_length (n div 2)" by simp
    then have "2 * (n div 2 + 1) \<le> 2 * 2 ^ bit_length (n div 2)" by simp
    moreover have "n < 2 * (n div 2 + 1)" by simp
    ultimately have "n < 2 ^ bit_length n" by (simp add: bl)
    with lo show ?thesis by simp
  qed
qed

lemma round_nearest_even_0: "round_nearest_even m 0 = m"
  by (simp add: round_nearest_even_def)

lemma f32_round_exact:
  assumes "0 < m" "m < 2 ^ 24"
  defines "k \<equiv> bit_length m - 1"
  shows "f32_round s m 0 = push_bit 31 (if s then 1 else 0) OR push_bit 23 (of_nat (127 + k))
              OR push_bit (23 - k) (of_nat (m - 2 ^ k))"
    and "k \<le> 23" "2 ^ k \<le> m" "m < 2 * 2 ^ k"
proof -
  from bit_length_bounds [OF assms(1)] have lo: "2 ^ k \<le> m" and hi: "m < 2 ^ bit_length m"
    by (simp_all add: k_def)
  have "0 < bit_length m"
    using assms(1) by (simp add: bit_length.simps [of m])
  then have bl: "bit_length m = Suc k" by (simp add: k_def)
  from hi show hi': "m < 2 * 2 ^ k" by (simp add: bl)
  from lo assms(2) have "(2 :: nat) ^ k < 2 ^ 24" by simp
  then have "k < 24" by (simp only: power_strict_increasing_iff [of 2 k 24])
  then show k23: "k \<le> 23" by simp
  show "2 ^ k \<le> m" by (rule lo)
  define c :: nat where "c = 2 ^ (23 - k)"
  have kc: "2 ^ k * c = (2 :: nat) ^ 23"
    using k23 by (simp add: c_def flip: power_add)
  have e1: "max (0 + int (bit_length m) - 24) (- 149) = int k - 23"
    by (simp add: bl)
  have m1: "(if (0 :: int) \<le> int k - 23 then round_nearest_even m (nat (int k - 23 - 0))
             else m * 2 ^ nat (0 - (int k - 23))) = m * c"
  proof (cases "k = 23")
    case True
    then show ?thesis by (simp add: round_nearest_even_0 c_def)
  next
    case False
    with k23 have "k < 23" by simp
    then have "nat (0 - (int k - 23)) = 23 - k" by simp
    with \<open>k < 23\<close> show ?thesis by (simp add: c_def)
  qed
  have lo1: "2 ^ 23 \<le> m * c"
    using lo kc by (metis mult_le_mono1)
  have "m * c < 2 * 2 ^ k * c"
    using hi' by (simp add: c_def)
  then have hi1: "m * c < 2 ^ 24"
    using kc by (simp add: mult.assoc)
  have frac: "m * c - 2 ^ 23 = (m - 2 ^ k) * c"
    using kc by (simp add: diff_mult_distrib)
  have "f32_round s m 0 = (if s then 0x80000000 else 0)
      OR push_bit 23 (word_of_int (int k - 23 + 150)) OR of_nat (m * c - 2 ^ 23)"
    unfolding f32_round_def Let_def e1 m1 using assms(1) lo1 hi1 k23 by simp
  also have "(if s then 0x80000000 else 0 :: f32) = push_bit 31 (if s then 1 else 0)"
    by simp
  also have "(word_of_int (int k - 23 + 150) :: f32) = of_nat (127 + k)"
    by simp
  also have "(of_nat (m * c - 2 ^ 23) :: f32) = push_bit (23 - k) (of_nat (m - 2 ^ k))"
    unfolding frac by (simp add: c_def push_bit_eq_mult)
  finally show "f32_round s m 0 = push_bit 31 (if s then 1 else 0) OR push_bit 23 (of_nat (127 + k))
              OR push_bit (23 - k) (of_nat (m - 2 ^ k))" .
qed

lemma unat_of_nat_u32: "x < 2 ^ 32 \<Longrightarrow> unat (of_nat x :: u32) = x"
  by (simp add: unat_of_nat)

lemma take_bit_of_nat_u32:
  assumes "x < 2 ^ k"
  shows "take_bit k (of_nat x :: u32) = of_nat x"
proof -
  have "take_bit k (of_nat x :: u32) = of_nat (take_bit k x)"
    by (simp add: of_nat_take_bit)
  also have "take_bit k x = x"
    using assms by (rule take_bit_nat_eq_self)
  finally show ?thesis .
qed

lemma f32_round_exact_fields:
  assumes "0 < a" "a < 2 ^ 24"
  defines "k \<equiv> bit_length a - 1"
  shows "f32_sign (f32_round s a 0) = s"
    and "f32_exponent (f32_round s a 0) = 127 + k"
    and "f32_fraction (f32_round s a 0) = (a - 2 ^ k) * 2 ^ (23 - k)"
proof -
  note r = f32_round_exact [OF assms(1,2), folded k_def]
  have k23: "k \<le> 23" and lo: "2 ^ k \<le> a" and hi': "a < 2 * 2 ^ k"
    by (rule r)+
  let ?m = "a - 2 ^ k"
  have m: "?m < 2 ^ k" using lo hi' by simp
  have x: "127 + k < 2 ^ 8" using k23 by simp
  have def: "f32_round s a 0 = push_bit 31 (if s then 1 else 0)
      OR push_bit 23 (take_bit 8 (of_nat (127 + k))) OR push_bit (23 - k) (take_bit k (of_nat ?m))"
    by (simp only: r(1) [of s] take_bit_of_nat_u32 [OF m] take_bit_of_nat_u32 [OF x])
  show "f32_sign (f32_round s a 0) = s"
    unfolding f32_sign_def def fields_of_pattern(3) [OF k23] by simp
  have "127 + k < 2 ^ 32" using k23 by simp
  then have "unat (of_nat (127 + k) :: u32) = 127 + k"
    by (rule unat_of_nat_u32)
  then have "unat (take_bit 8 (of_nat (127 + k) :: u32)) = 127 + k"
    by (simp only: take_bit_of_nat_u32 [OF x])
  then show "f32_exponent (f32_round s a 0) = 127 + k"
    unfolding f32_exponent_def def fields_of_pattern(1) [OF k23] .
  have "?m < 2 ^ 23"
    using m k23 by (meson less_le_trans one_le_numeral power_increasing)
  then have "?m < 2 ^ 32" by simp
  then have "unat (of_nat ?m :: u32) = ?m"
    by (rule unat_of_nat_u32)
  then have um: "unat (take_bit k (of_nat ?m :: u32)) = ?m"
    by (simp only: take_bit_of_nat_u32 [OF m])
  have "?m * 2 ^ (23 - k) < 2 ^ k * 2 ^ (23 - k)"
    using m by simp
  also have "\<dots> = 2 ^ 23"
    using k23 by (simp flip: power_add)
  finally have "?m * 2 ^ (23 - k) < 2 ^ LENGTH(32)"
    by simp
  then have "take_bit LENGTH(32) (?m * 2 ^ (23 - k)) = ?m * 2 ^ (23 - k)"
    by (rule take_bit_nat_eq_self)
  moreover have "unat (push_bit (23 - k) (take_bit k (of_nat ?m :: u32)))
      = take_bit LENGTH(32) (push_bit (23 - k) (unat (take_bit k (of_nat ?m :: u32))))"
    by (rule unsigned_push_bit_eq)
  ultimately have "unat (push_bit (23 - k) (take_bit k (of_nat ?m :: u32))) = ?m * 2 ^ (23 - k)"
    by (simp only: push_bit_eq_mult um)
  then show "f32_fraction (f32_round s a 0) = ?m * 2 ^ (23 - k)"
    unfolding f32_fraction_def def fields_of_pattern(2) [OF k23] .
qed

lemma f32_real_of_int:
  assumes "\<bar>n\<bar> < 2 ^ 24"
  shows "f32_real (f32_of_int n) = Some (real_of_int n)"
proof (cases "n = 0")
  case True
  then show ?thesis
    by (simp add: f32_of_int_def f32_round_def f32_real_def f32_exponent_def f32_sign_def
          f32_magnitude_def f32_fraction_def)
next
  case False
  define a where "a = nat \<bar>n\<bar>"
  define k where "k = bit_length a - 1"
  define c :: nat where "c = 2 ^ (23 - k)"
  have a0: "0 < a" and a24: "a < 2 ^ 24"
    using False assms by (simp_all add: a_def nat_less_iff)
  have w: "f32_of_int n = f32_round (n < 0) a 0"
    by (simp add: f32_of_int_def a_def)
  have k23: "k \<le> 23" and lo: "2 ^ k \<le> a"
    unfolding k_def by (rule f32_round_exact [OF a0 a24])+
  have f: "f32_sign (f32_of_int n) = (n < 0)"
    "f32_exponent (f32_of_int n) = 127 + k"
    "f32_fraction (f32_of_int n) = (a - 2 ^ k) * 2 ^ (23 - k)"
    unfolding w k_def by (rule f32_round_exact_fields [OF a0 a24])+
  have "2 ^ k * c = (2 :: nat) ^ 23"
    using k23 by (simp add: c_def flip: power_add)
  then have "2 ^ 23 + (a - 2 ^ k) * c = (2 ^ k + (a - 2 ^ k)) * c"
    by (simp add: add_mult_distrib)
  also have "\<dots> = a * c"
    using lo by simp
  finally have sig: "2 ^ 23 + f32_fraction (f32_of_int n) = a * c"
    by (simp add: f(3) c_def)
  have scale: "150 - f32_exponent (f32_of_int n) = 23 - k"
    using k23 by (simp add: f(2))
  have "f32_magnitude (f32_of_int n) = real (a * c) / 2 ^ (23 - k)"
    unfolding f32_magnitude_def Let_def sig scale using k23 by (simp add: f(2))
  also have "\<dots> = real a"
    by (simp add: c_def)
  finally have mag: "f32_magnitude (f32_of_int n) = real a" .
  have "f32_exponent (f32_of_int n) \<noteq> 255"
    using k23 by (simp add: f(2))
  then have "f32_real (f32_of_int n) = Some (if n < 0 then - real a else real a)"
    by (simp add: f32_real_def f(1) mag)
  also have "(if n < 0 then - real a else real a) = real_of_int n"
    by (simp add: a_def)
  finally show ?thesis .
qed

lemma f32_of_int_examples: "f32_of_int 16 = 0x41800000" "f32_of_int (- 3) = 0xC0400000"
  by (simp_all add: f32_of_int_def f32_round_def round_nearest_even_def bit_length_numeral Let_def)

section \<open>Fixed point: the operations on raw words\<close>

lemma FracMask_word: "FracMask = 0xF"
  by (simp add: FracMask_def int16_def)

lemma IntMask_word: "IntMask = 0xFFF0"
  by (simp add: IntMask_def int16_def)

lemma masks_disjoint: "IntMask AND FracMask = 0" "IntMask OR FracMask = - 1"
  by (simp_all add: IntMask_word FracMask_word)

lemma Floor_word: "value16 (Floor a) = value16 a AND IntMask"
  by (simp add: Floor_def int16_and)

lemma Ceil_word: "value16 (Ceil a) = (value16 a + FracMask) AND IntMask"
  by (simp add: Ceil_def Floor_word) (simp add: int16_def)

lemma Frac_word: "Frac a = value16 a AND FracMask"
  by (simp add: Frac_def of_int_and_eq)

lemma FromInt_word:
  "value16 (FromInt n f) = ((n * 16) AND IntMask) OR (f AND FracMask)"
  by (simp add: FromInt_def int16_def of_int_and_eq of_int_or_eq)

lemma Fix_plus_word: "value16 (Fix_plus a b) = value16 a + value16 b"
  by (simp add: Fix_plus_def int16_def)

lemma Fix_minus_word: "value16 (Fix_minus a b) = value16 a - value16 b"
  by (simp add: Fix_minus_def int16_def)

section \<open>Fixed point: ordering\<close>

text \<open>
  Claim C6. \<^verbatim>\<open>a < b\<close> compares the signed raw values, and that holds exactly when the
  represented real value of \<open>a\<close> is less than that of \<open>b\<close>. The comparison is a strict
  total order: irreflexive, transitive, and any two values are related or have the same
  raw value (\<^verbatim>\<open>==\<close>).
\<close>

theorem Fix_less_represented:
  "(Fix_less a b \<longleftrightarrow> represented a < represented b)
   \<and> \<not> Fix_less a a
   \<and> (Fix_less a b \<and> Fix_less b c \<longrightarrow> Fix_less a c)
   \<and> (Fix_less a b \<or> Fix_eq a b \<or> Fix_less b a)"
proof -
  have "represented a < represented b \<longleftrightarrow> sint (value16 a) < sint (value16 b)"
    unfolding represented_def by (simp del: of_int_sint)
  moreover have "sint (value16 a) = sint (value16 b) \<Longrightarrow> value16 a = value16 b"
    by (rule signed_word_eqI)
  ultimately show ?thesis
    unfolding Fix_less_def Fix_eq_def by auto
qed

theorem Fix_less_represented_witness:
  "Fix_less (FromInt (- 3) 0) (FromInt 2 0) \<and> Fix_less (FromInt 2 0) (FromInt 2 8)
   \<and> Fix_less (FromInt (- 3) 0) (FromInt 2 8)
   \<and> represented (FromInt (- 3) 0) < represented (FromInt 2 0)"
proof -
  have ab: "Fix_less (FromInt (- 3) 0) (FromInt 2 0)"
    by (simp add: Fix_less_def FromInt_def int16_def IntMask_def FracMask_def)
  have bc: "Fix_less (FromInt 2 0) (FromInt 2 8)"
    by (simp add: Fix_less_def FromInt_def int16_def IntMask_def FracMask_def)
  from Fix_less_represented [of "FromInt (- 3) 0" "FromInt 2 0" "FromInt 2 8"] ab bc
  show ?thesis by blast
qed

section \<open>Fixed point: addition and subtraction\<close>

text \<open>
  Claim C9 as stated, that the represented value of \<^verbatim>\<open>a + b\<close> is \<open>rawA/16 + rawB/16\<close> for
  every pair, fails where the 16-bit sum wraps: raw \<open>32767\<close> plus raw \<open>1\<close> is raw
  \<open>-32768\<close>, which stands for \<open>-2048\<close> and not for \<open>2048\<close>.
\<close>

theorem Fix_plus_exact_counterexample:
  "represented (Fix_plus \<lparr>value16 = 32767\<rparr> \<lparr>value16 = 1\<rparr>)
     \<noteq> represented \<lparr>value16 = 32767\<rparr> + represented \<lparr>value16 = 1\<rparr>"
  by (simp add: Fix_plus_def represented_def int16_def del: of_int_sint)

text \<open>
  Claim C9, amended. Addition and subtraction are the 16-bit raw add and subtract, which
  wrap around; the represented value of \<^verbatim>\<open>a + b\<close> is \<open>rawA/16 + rawB/16\<close> whenever
  \<open>rawA + rawB\<close> lies in \<open>[-32768, 32767]\<close>, and that of \<^verbatim>\<open>a - b\<close> is \<open>rawA/16 - rawB/16\<close>
  whenever \<open>rawA - rawB\<close> does.
\<close>

theorem Fix_plus_minus_raw:
  "value16 (Fix_plus a b) = value16 a + value16 b
   \<and> value16 (Fix_minus a b) = value16 a - value16 b
   \<and> (- 32768 \<le> sint (value16 a) + sint (value16 b) \<and> sint (value16 a) + sint (value16 b) \<le> 32767
        \<longrightarrow> represented (Fix_plus a b) = represented a + represented b)
   \<and> (- 32768 \<le> sint (value16 a) - sint (value16 b) \<and> sint (value16 a) - sint (value16 b) \<le> 32767
        \<longrightarrow> represented (Fix_minus a b) = represented a - represented b)"
  by (simp add: Fix_plus_word Fix_minus_word)
     (simp add: Fix_plus_def Fix_minus_def represented_def sint_int16 add_divide_distrib
        diff_divide_distrib del: of_int_sint)

theorem Fix_plus_minus_raw_witness:
  "represented (Fix_plus \<lparr>value16 = 24\<rparr> \<lparr>value16 = - 40\<rparr>) = - 1
   \<and> represented (Fix_minus \<lparr>value16 = 24\<rparr> \<lparr>value16 = - 40\<rparr>) = 4"
proof
  let ?a = "\<lparr>value16 = 24 :: s16\<rparr>" and ?b = "\<lparr>value16 = - 40 :: s16\<rparr>"
  have ra: "represented ?a = 3 / 2" and rb: "represented ?b = - 5 / 2"
    by (simp_all add: represented_def del: of_int_sint)
  have "- 32768 \<le> sint (value16 ?a) + sint (value16 ?b)
      \<and> sint (value16 ?a) + sint (value16 ?b) \<le> 32767"
    by simp
  with Fix_plus_minus_raw [of ?a ?b]
  have "represented (Fix_plus ?a ?b) = represented ?a + represented ?b" by blast
  then show "represented (Fix_plus ?a ?b) = - 1" by (simp add: ra rb)
  have "- 32768 \<le> sint (value16 ?a) - sint (value16 ?b)
      \<and> sint (value16 ?a) - sint (value16 ?b) \<le> 32767"
    by simp
  with Fix_plus_minus_raw [of ?a ?b]
  have "represented (Fix_minus ?a ?b) = represented ?a - represented ?b" by blast
  then show "represented (Fix_minus ?a ?b) = 4" by (simp add: ra rb)
qed

section \<open>Fixed point: \<^verbatim>\<open>Ceil\<close>\<close>

lemma Ceil_fixed:
  assumes "value16 a AND FracMask = 0"
  shows "Ceil a = a"
proof -
  let ?v = "value16 a"
  have split: "?v = (?v AND IntMask) OR (?v AND FracMask)"
    by (simp flip: bit.conj_disj_distrib add: masks_disjoint)
  with assms have keep: "?v AND IntMask = ?v" by simp
  have "?v + FracMask = ?v OR FracMask"
    using assms by (rule disjunctive_add_eq_or)
  then have "(?v + FracMask) AND IntMask = (?v AND IntMask) OR (FracMask AND IntMask)"
    by (simp add: bit.conj_disj_distrib2)
  also have "\<dots> = ?v"
    using keep masks_disjoint(1) by (simp add: and.commute)
  finally have "value16 (Ceil a) = ?v" by (simp add: Ceil_word)
  then show ?thesis by simp
qed

lemma FromInt_integral: "value16 (FromInt n 0) AND FracMask = 0"
proof -
  have "((n * 16) AND IntMask) AND FracMask = (n * 16) AND (IntMask AND FracMask)"
    by (simp only: and.assoc)
  then show ?thesis by (simp add: FromInt_word masks_disjoint)
qed

text \<open>
  Claim C8. \<^verbatim>\<open>Ceil\<close> is \<^verbatim>\<open>Floor\<close> of the raw value plus \<^verbatim>\<open>FracMask\<close> (a 16-bit sum), and
  every integral value is a fixed point of \<^verbatim>\<open>Ceil\<close>: \<^verbatim>\<open>Ceil(FromInt(n)) == FromInt(n)\<close> for
  every \<^verbatim>\<open>int16_t\<close> \<open>n\<close>, and more generally \<^verbatim>\<open>Ceil\<close> returns its argument whenever the
  fractional nibble \<^verbatim>\<open>Frac()\<close> is zero.
\<close>

theorem Ceil_FromInt:
  "Ceil a = Floor \<lparr>value16 = value16 a + FracMask\<rparr>
   \<and> Ceil (FromInt n 0) = FromInt n 0
   \<and> Fix_eq (Ceil (FromInt n 0)) (FromInt n 0)
   \<and> (Frac a = 0 \<longrightarrow> Ceil a = a)"
proof (intro conjI impI)
  show "Ceil a = Floor \<lparr>value16 = value16 a + FracMask\<rparr>"
    by (simp add: Ceil_def int16_def)
  show fixed: "Ceil (FromInt n 0) = FromInt n 0"
    using FromInt_integral by (rule Ceil_fixed)
  show "Fix_eq (Ceil (FromInt n 0)) (FromInt n 0)"
    unfolding fixed by (simp add: Fix_eq_def)
  show "Ceil a = a" if "Frac a = 0"
    using that by (intro Ceil_fixed) (simp add: Frac_word)
qed

theorem Ceil_FromInt_witness:
  "Frac \<lparr>value16 = - 48\<rparr> = 0 \<and> Ceil \<lparr>value16 = - 48\<rparr> = \<lparr>value16 = - 48\<rparr>"
proof -
  have f: "Frac \<lparr>value16 = - 48\<rparr> = 0"
    by (simp add: Frac_def FracMask_def int16_def)
  with Ceil_FromInt [of "\<lparr>value16 = - 48\<rparr>"] show ?thesis by blast
qed

section \<open>Fixed point: division\<close>

text \<open>
  Claim C4. With a nonzero raw divisor, \<^verbatim>\<open>a / b\<close> has the raw value
  \<open>(rawA * 16) / rawB\<close>, the exact quotient truncated toward zero and cast to 16 bits.
  With a raw divisor of zero the division faults for every dividend (a nonzero one in
  particular), and \<^verbatim>\<open>operator/\<close> hands the fault of \<^verbatim>\<open>Divide\<close> to its caller.
\<close>

theorem Fix_divide_truncates_or_faults:
  "(value16 b \<noteq> 0 \<longrightarrow>
      Fix_divide a b = Inr \<lparr>value16 = int16 ((sint (value16 a) * 16) sdiv sint (value16 b))\<rparr>
      \<and> (sint (value16 a) * 16) sdiv sint (value16 b)
          = trunc_toward_zero (real_of_int (sint (value16 a) * 16) / real_of_int (sint (value16 b))))
   \<and> (value16 b = 0 \<longrightarrow> Fix_divide a b = Inl DivisionByZero)"
proof (intro conjI impI)
  assume "value16 b \<noteq> 0"
  then have nz: "sint (value16 b) \<noteq> 0" by (simp add: signed_eq_0_iff)
  then show "Fix_divide a b = Inr \<lparr>value16 = int16 ((sint (value16 a) * 16) sdiv sint (value16 b))\<rparr>"
    by (simp add: Fix_divide_def Divide_def)
  from nz show "(sint (value16 a) * 16) sdiv sint (value16 b)
      = trunc_toward_zero (real_of_int (sint (value16 a) * 16) / real_of_int (sint (value16 b)))"
    by (rule sdiv_trunc_toward_zero)
next
  assume "value16 b = 0"
  then show "Fix_divide a b = Inl DivisionByZero"
    by (simp add: Fix_divide_def Divide_def)
qed

theorem Fix_divide_truncates_or_faults_witness:
  "Fix_divide \<lparr>value16 = - 7\<rparr> \<lparr>value16 = 32\<rparr> = Inr \<lparr>value16 = - 3\<rparr>
   \<and> Fix_divide \<lparr>value16 = 5\<rparr> \<lparr>value16 = 0\<rparr> = Inl DivisionByZero"
proof
  have "value16 \<lparr>value16 = 32\<rparr> \<noteq> 0" by simp
  with Fix_divide_truncates_or_faults [of "\<lparr>value16 = 32\<rparr>" "\<lparr>value16 = - 7\<rparr>"]
  have "Fix_divide \<lparr>value16 = - 7\<rparr> \<lparr>value16 = 32\<rparr>
      = Inr \<lparr>value16 = int16 ((sint (value16 \<lparr>value16 = - 7 :: s16\<rparr>) * 16)
                                sdiv sint (value16 \<lparr>value16 = 32 :: s16\<rparr>))\<rparr>"
    by blast
  then show "Fix_divide \<lparr>value16 = - 7\<rparr> \<lparr>value16 = 32\<rparr> = Inr \<lparr>value16 = - 3\<rparr>"
    by (simp add: int16_def signed_divide_int_def)
  have "value16 \<lparr>value16 = 0 :: s16\<rparr> = 0" by simp
  with Fix_divide_truncates_or_faults [of "\<lparr>value16 = 0\<rparr>" "\<lparr>value16 = 5\<rparr>"]
  show "Fix_divide \<lparr>value16 = 5\<rparr> \<lparr>value16 = 0\<rparr> = Inl DivisionByZero"
    by blast
qed

section \<open>Fixed point: \<^verbatim>\<open>FromFloat\<close>\<close>

lemma c_round_of_int: "c_round (real_of_int k) = k"
  by (simp add: c_round_def)

lemma f32_real_16: "f32_real 0x41800000 = Some 16"
  by (simp add: f32_real_def f32_exponent_def f32_sign_def f32_magnitude_def f32_fraction_def)

lemma f32_real_half: "f32_real 0x3F000000 = Some (1 / 2)"
  by (simp add: f32_real_def f32_exponent_def f32_sign_def f32_magnitude_def f32_fraction_def)

lemma f32_real_32nd: "f32_real 0x3D000000 = Some (1 / 32)" "f32_real 0xBD000000 = Some (- 1 / 32)"
  by (simp_all add: f32_real_def f32_exponent_def f32_sign_def f32_magnitude_def f32_fraction_def)

lemma FromFloat_of_int:
  assumes "- 2048 \<le> n" "n \<le> 2047" "f32_real w = Some (real_of_int n)"
  shows "FromFloat w = Some \<lparr>value16 = int16 (16 * n)\<rparr>"
proof -
  have "c_round (real_of_int n * 16) = 16 * n"
    using c_round_of_int [of "16 * n"] by (simp add: mult.commute)
  then show ?thesis
    using assms by (simp add: FromFloat_def)
qed

section \<open>Fixed point: multiplication\<close>

text \<open>
  Claim C5. \<^verbatim>\<open>a * b\<close> has the raw value \<open>(rawA * rawB) / 16\<close> cast to 16 bits, where \<open>/\<close>
  truncates the exact quotient toward zero: the quotient times 16 is no further from zero
  than the product, misses it by less than 16 and has its sign. \<^verbatim>\<open>FromInt(1) * FromInt(1)\<close>
  is \<^verbatim>\<open>FromInt(1)\<close>; \<^verbatim>\<open>FromInt(-1) * FromFloat(0.5)\<close> is raw \<open>-8\<close>; raw \<open>-5\<close> times raw
  \<open>5\<close> is raw \<open>-1\<close> (\<open>-25/16\<close> truncated, where rounding to nearest or down gives
  \<open>-2\<close>), and raw \<open>5\<close> times raw \<open>5\<close> is raw \<open>1\<close> (nearest would be \<open>2\<close>).
\<close>

theorem Fix_times_truncates:
  "value16 (Fix_times a b) = int16 ((sint (value16 a) * sint (value16 b)) sdiv 16)
   \<and> (sint (value16 a) * sint (value16 b)) sdiv 16
       = trunc_toward_zero (real_of_int (sint (value16 a) * sint (value16 b)) / 16)
   \<and> \<bar>(sint (value16 a) * sint (value16 b)) sdiv 16 * 16\<bar> \<le> \<bar>sint (value16 a) * sint (value16 b)\<bar>
   \<and> \<bar>sint (value16 a) * sint (value16 b)\<bar> < \<bar>(sint (value16 a) * sint (value16 b)) sdiv 16 * 16\<bar> + 16
   \<and> 0 \<le> (sint (value16 a) * sint (value16 b)) sdiv 16 * 16 * (sint (value16 a) * sint (value16 b))
   \<and> Fix_times (FromInt 1 0) (FromInt 1 0) = FromInt 1 0
   \<and> map_option (Fix_times (FromInt (- 1) 0)) (FromFloat 0x3F000000) = Some \<lparr>value16 = - 8\<rparr>
   \<and> Fix_times \<lparr>value16 = - 5\<rparr> \<lparr>value16 = 5\<rparr> = \<lparr>value16 = - 1\<rparr>
   \<and> Fix_times \<lparr>value16 = 5\<rparr> \<lparr>value16 = 5\<rparr> = \<lparr>value16 = 1\<rparr>"
proof -
  let ?p = "sint (value16 a) * sint (value16 b)"
  have raw: "value16 (Fix_times a b) = int16 (?p sdiv 16)"
    by (simp add: Fix_times_def Multiply_def)
  have tr: "?p sdiv 16 = trunc_toward_zero (real_of_int ?p / 16)"
    using sdiv_trunc_toward_zero [of 16 ?p] by simp
  have bounds: "\<bar>?p sdiv 16 * 16\<bar> \<le> \<bar>?p\<bar> \<and> \<bar>?p\<bar> < \<bar>?p sdiv 16 * 16\<bar> + 16
      \<and> 0 \<le> ?p sdiv 16 * 16 * ?p"
    using sdiv_toward_zero_bounds [of 16 ?p] by simp
  have one: "Fix_times (FromInt 1 0) (FromInt 1 0) = FromInt 1 0"
    by (simp add: Fix_times_def Multiply_def FromInt_def int16_def IntMask_def FracMask_def
          signed_divide_int_def)
  have "FromFloat 0x3F000000 = Some \<lparr>value16 = 8\<rparr>"
    by (simp add: FromFloat_def f32_real_half c_round_def int16_def)
  then have half: "map_option (Fix_times (FromInt (- 1) 0)) (FromFloat 0x3F000000)
      = Some \<lparr>value16 = - 8\<rparr>"
    by (simp add: Fix_times_def Multiply_def FromInt_def int16_def IntMask_def FracMask_def
          signed_divide_int_def)
  have neg: "Fix_times \<lparr>value16 = - 5\<rparr> \<lparr>value16 = 5\<rparr> = \<lparr>value16 = - 1\<rparr>"
    by (simp add: Fix_times_def Multiply_def int16_def signed_divide_int_def)
  have pos: "Fix_times \<lparr>value16 = 5\<rparr> \<lparr>value16 = 5\<rparr> = \<lparr>value16 = 1\<rparr>"
    by (simp add: Fix_times_def Multiply_def int16_def signed_divide_int_def)
  from raw tr bounds one half neg pos show ?thesis by (simp only: simp_thms)
qed

section \<open>Fixed point: \<^verbatim>\<open>Floor\<close> of \<^verbatim>\<open>FromFloat\<close>\<close>

text \<open>
  Claim C7 as stated, \<^verbatim>\<open>Floor(FromFloat(16*n)) == FromInt(n)\<close>, fails at \<open>n = 1\<close>:
  \<^verbatim>\<open>FromFloat\<close> scales its argument by 16 itself, so \<^verbatim>\<open>FromFloat(16.0f)\<close> is raw \<open>256\<close>,
  which \<^verbatim>\<open>Floor\<close> leaves alone, while \<^verbatim>\<open>FromInt(1)\<close> is raw \<open>16\<close>.
\<close>

theorem FromFloat_16n_counterexample:
  "- 2048 \<le> (1 :: int) \<and> (1 :: int) \<le> 2047
   \<and> map_option Floor (FromFloat (f32_of_int (16 * 1))) \<noteq> Some (FromInt 1 0)"
  by (simp add: f32_of_int_examples f32_real_16 FromFloat_def c_round_def Floor_def FromInt_def
        int16_def IntMask_def FracMask_def)

text \<open>
  Claim C7, amended. For every integer \<open>n\<close> in \<open>[-2048, 2047]\<close>,
  \<^verbatim>\<open>Floor(FromFloat(n)) == FromInt(n)\<close>. \<^verbatim>\<open>FromFloat(x)\<close> is \<open>round(x * 16)\<close>,
  halfway cases away from zero, as a signed 16-bit value whenever that fits (so
  \<^verbatim>\<open>FromFloat(1/32)\<close> is raw \<open>1\<close> and \<^verbatim>\<open>FromFloat(-1/32)\<close> is raw \<open>-1\<close>), and \<^verbatim>\<open>Floor\<close> clears
  the four fractional bits.
\<close>

theorem Floor_FromFloat_integer:
  "(- 2048 \<le> n \<and> n \<le> 2047 \<longrightarrow>
      map_option Floor (FromFloat (f32_of_int n)) = Some (FromInt (int16 n) 0))
   \<and> (f32_real w = Some x \<and> - 32768 \<le> c_round (x * 16) \<and> c_round (x * 16) \<le> 32767 \<longrightarrow>
      map_option (\<lambda>r. sint (value16 r)) (FromFloat w) = Some (c_round (x * 16)))
   \<and> FromFloat 0x3D000000 = Some \<lparr>value16 = 1\<rparr>
   \<and> FromFloat 0xBD000000 = Some \<lparr>value16 = - 1\<rparr>
   \<and> value16 (Floor a) = value16 a AND NOT 0xF"
proof (intro conjI impI)
  assume h: "- 2048 \<le> n \<and> n \<le> 2047"
  then have "\<bar>n\<bar> < 2 ^ 24" by auto
  then have v: "f32_real (f32_of_int n) = Some (real_of_int n)"
    by (rule f32_real_of_int)
  have "value16 (Floor \<lparr>value16 = int16 (16 * n)\<rparr>) = value16 (FromInt (int16 n) 0)"
    by (simp add: Floor_word FromInt_word) (simp add: int16_def mult.commute)
  then have "Floor \<lparr>value16 = int16 (16 * n)\<rparr> = FromInt (int16 n) 0"
    by simp
  moreover from h v have "FromFloat (f32_of_int n) = Some \<lparr>value16 = int16 (16 * n)\<rparr>"
    by (intro FromFloat_of_int) simp_all
  ultimately show "map_option Floor (FromFloat (f32_of_int n)) = Some (FromInt (int16 n) 0)"
    by simp
next
  assume "f32_real w = Some x \<and> - 32768 \<le> c_round (x * 16) \<and> c_round (x * 16) \<le> 32767"
  then show "map_option (\<lambda>r. sint (value16 r)) (FromFloat w) = Some (c_round (x * 16))"
    by (simp add: FromFloat_def sint_int16)
next
  show "FromFloat 0x3D000000 = Some \<lparr>value16 = 1\<rparr>"
    by (simp add: FromFloat_def f32_real_32nd c_round_def int16_def)
  show "FromFloat 0xBD000000 = Some \<lparr>value16 = - 1\<rparr>"
    by (simp add: FromFloat_def f32_real_32nd c_round_def int16_def)
  have "IntMask = NOT 0xF"
    unfolding IntMask_word by (simp add: word_uint_eq_iff)
  then show "value16 (Floor a) = value16 a AND NOT 0xF"
    by (simp only: Floor_word)
qed

theorem Floor_FromFloat_integer_witness:
  "map_option Floor (FromFloat (f32_of_int (- 3))) = Some (FromInt (- 3) 0)
   \<and> map_option (\<lambda>r. sint (value16 r)) (FromFloat 0x3F000000) = Some 8"
proof
  have "- 2048 \<le> (- 3 :: int) \<and> (- 3 :: int) \<le> 2047"
    by simp
  with Floor_FromFloat_integer [of "- 3"]
  have "map_option Floor (FromFloat (f32_of_int (- 3))) = Some (FromInt (int16 (- 3)) 0)"
    by blast
  then show "map_option Floor (FromFloat (f32_of_int (- 3))) = Some (FromInt (- 3) 0)"
    by (simp add: int16_def)
  have c: "c_round (1 / 2 * 16) = 8" by (simp add: c_round_def)
  then have "f32_real 0x3F000000 = Some (1 / 2) \<and> - 32768 \<le> c_round (1 / 2 * 16)
      \<and> c_round (1 / 2 * 16) \<le> 32767"
    by (simp add: f32_real_half)
  with Floor_FromFloat_integer [of _ "0x3F000000" "1 / 2"]
  have "map_option (\<lambda>r. sint (value16 r)) (FromFloat 0x3F000000) = Some (c_round (1 / 2 * 16))"
    by blast
  then show "map_option (\<lambda>r. sint (value16 r)) (FromFloat 0x3F000000) = Some 8"
    by (simp only: c)
qed

section \<open>Custom float: \<^verbatim>\<open>FromRaw\<close>\<close>

lemma word_of_int_mask: "(word_of_int (push_bit n 1 - 1) :: u32) = mask n"
  by (simp add: mask_eq_exp_minus_1)

lemma exponent_shift:
  "(word_of_int (push_bit 23 (uint (x :: u32) + b)) :: u32) = push_bit 23 (x + word_of_int b)"
  by (simp add: push_bit_eq_mult)

lemma width_minus_1: "nat (int M + int E + 1 - 1) = M + E"
  by simp

text \<open>\<^verbatim>\<open>FromRaw\<close> with its masks read as \<open>take_bit\<close> and its \<^verbatim>\<open>int\<close>s as words.\<close>

lemma FromRaw_alt:
  "value32 (FromRaw hex :: ('m::len, 'e::len) Float) =
     (if take_bit (LENGTH('m) + LENGTH('e)) hex \<noteq> 0
      then push_bit 31 (drop_bit (LENGTH('e) + LENGTH('m)) hex)
           OR push_bit (23 - LENGTH('m)) (take_bit LENGTH('m) hex)
           OR push_bit 23 (take_bit LENGTH('e) (drop_bit LENGTH('m) hex)
                           + word_of_int (128 - push_bit (LENGTH('e) - 1) 1))
      else push_bit 31 (drop_bit (LENGTH('e) + LENGTH('m)) hex))"
  unfolding FromRaw_def Let_def word_of_int_mask width_minus_1 exponent_shift
  by (simp only: take_bit_eq_mask if_distrib [of value32] Float.sel)

text \<open>The \<^verbatim>\<open>int\<close> shift \<^verbatim>\<open>(exponent + bias) << 23\<close> stays within 32 bits.\<close>

lemma exponent_fits_int:
  assumes "0 < E" "E \<le> 7"
  shows "fits_int (push_bit 23 (uint (drop_bit M (hex :: u32) AND word_of_int (push_bit E 1 - 1))
                      + (128 - push_bit (E - 1) 1)))"
proof -
  let ?e = "uint (drop_bit M hex AND word_of_int (push_bit E 1 - 1))"
  have "?e = uint (take_bit E (drop_bit M hex))"
    by (simp only: word_of_int_mask take_bit_eq_mask)
  also have "\<dots> < 2 ^ E"
    by (simp add: unsigned_take_bit_eq)
  finally have e: "0 \<le> ?e \<and> ?e < 2 ^ E" by simp
  from assms obtain k where k: "E = Suc k" "k \<le> 6"
    by (cases E) simp_all
  have "(2 :: int) ^ k \<le> 2 ^ 6"
    using k(2) by (intro power_increasing) simp_all
  moreover have "(1 :: int) \<le> 2 ^ k" by simp
  ultimately have "0 \<le> ?e + (128 - 2 ^ (E - 1)) \<and> ?e + (128 - 2 ^ (E - 1)) < 256"
    using e by (simp add: k(1))
  then show ?thesis
    by (simp add: fits_int_def push_bit_eq_mult)
qed

text \<open>Shifting left by 31 keeps one bit of \<^verbatim>\<open>hex >> (E + M)\<close>: bit \<open>M + E\<close> of \<^verbatim>\<open>hex\<close>.\<close>

lemma sign_shift:
  assumes "n < 32"
  shows "push_bit 31 (drop_bit n (hex :: u32)) = (if bit hex n then 0x80000000 else 0)"
proof -
  have "push_bit 31 (drop_bit n hex) = (if bit hex n then 2 ^ 31 else 0)"
    using assms by (intro bit_word_eqI) (auto simp: bit_simps simp del: power_numeral)
  then show ?thesis by simp
qed

lemma FromRaw_zero_path:
  assumes "take_bit (LENGTH('m) + LENGTH('e)) hex = 0" "LENGTH('m) + LENGTH('e) < 32"
  shows "value32 (FromRaw hex :: ('m::len, 'e::len) Float)
           = (if bit hex (LENGTH('m) + LENGTH('e)) then f32_neg_zero else f32_pos_zero)"
  using assms sign_shift [of "LENGTH('m) + LENGTH('e)" hex]
  by (simp add: FromRaw_alt add.commute f32_neg_zero_def f32_pos_zero_def)

lemma FromRaw_normalized_path:
  assumes "take_bit (LENGTH('m) + LENGTH('e)) hex \<noteq> 0" "LENGTH('m) + LENGTH('e) < 32"
  shows "value32 (FromRaw hex :: ('m::len, 'e::len) Float)
           = normalized_pattern LENGTH('m) LENGTH('e) hex"
proof -
  have "push_bit 31 (drop_bit (LENGTH('m) + LENGTH('e)) hex)
          = push_bit 31 (if bit hex (LENGTH('m) + LENGTH('e)) then 1 else 0 :: u32)"
    using assms(2) by (intro bit_word_eqI) (auto simp: bit_simps)
  then show ?thesis
    using assms(1)
    by (simp add: FromRaw_alt normalized_pattern_def Let_def add.commute or.assoc or.commute
          or.left_commute)
qed

text \<open>
  Claim C2. For each of the three instantiations and every 32-bit input whose low
  \<open>M + E\<close> bits are all zero, \<^verbatim>\<open>FromRaw\<close> returns the zero whose sign is bit \<open>M + E\<close> of
  the input: \<open>+0.0\<close> when it is clear, \<open>-0.0\<close> when it is set. \<^verbatim>\<open>FromRaw(0)\<close> is \<open>+0.0\<close>
  and \<^verbatim>\<open>FromRaw\<close> of the sign bit alone is \<open>-0.0\<close>.
\<close>

theorem FromRaw_signed_zero:
  "(take_bit 23 hex = 0 \<longrightarrow>
      value32 (FromRaw hex :: float24) = (if bit hex 23 then f32_neg_zero else f32_pos_zero))
   \<and> (take_bit 19 hex = 0 \<longrightarrow>
      value32 (FromRaw hex :: float20) = (if bit hex 19 then f32_neg_zero else f32_pos_zero))
   \<and> (take_bit 15 hex = 0 \<longrightarrow>
      value32 (FromRaw hex :: float16) = (if bit hex 15 then f32_neg_zero else f32_pos_zero))
   \<and> value32 (FromRaw 0 :: float24) = f32_pos_zero
   \<and> value32 (FromRaw 0 :: float20) = f32_pos_zero
   \<and> value32 (FromRaw 0 :: float16) = f32_pos_zero
   \<and> value32 (FromRaw 0x800000 :: float24) = f32_neg_zero
   \<and> value32 (FromRaw 0x80000 :: float20) = f32_neg_zero
   \<and> value32 (FromRaw 0x8000 :: float16) = f32_neg_zero"
proof (intro conjI impI)
  show "value32 (FromRaw hex :: float24) = (if bit hex 23 then f32_neg_zero else f32_pos_zero)"
    if "take_bit 23 hex = 0"
    using FromRaw_zero_path [where 'm = 16 and 'e = 7 and hex = hex] that by simp
  show "value32 (FromRaw hex :: float20) = (if bit hex 19 then f32_neg_zero else f32_pos_zero)"
    if "take_bit 19 hex = 0"
    using FromRaw_zero_path [where 'm = 12 and 'e = 7 and hex = hex] that by simp
  show "value32 (FromRaw hex :: float16) = (if bit hex 15 then f32_neg_zero else f32_pos_zero)"
    if "take_bit 15 hex = 0"
    using FromRaw_zero_path [where 'm = 10 and 'e = 5 and hex = hex] that by simp
qed (simp_all add: FromRaw_def f32_pos_zero_def f32_neg_zero_def)

theorem FromRaw_signed_zero_witness:
  "value32 (FromRaw 0xFF800000 :: float24) = f32_neg_zero
   \<and> value32 (FromRaw 0x7F00000 :: float20) = f32_pos_zero
   \<and> value32 (FromRaw 0x8000 :: float16) = f32_neg_zero"
proof (intro conjI)
  have "take_bit 23 (0xFF800000 :: u32) = 0" by simp
  with FromRaw_signed_zero [of "0xFF800000"]
  have "value32 (FromRaw 0xFF800000 :: float24)
          = (if bit (0xFF800000 :: u32) 23 then f32_neg_zero else f32_pos_zero)"
    by blast
  then show "value32 (FromRaw 0xFF800000 :: float24) = f32_neg_zero" by simp
  have "take_bit 19 (0x7F00000 :: u32) = 0" by simp
  with FromRaw_signed_zero [of "0x7F00000"]
  have "value32 (FromRaw 0x7F00000 :: float20)
          = (if bit (0x7F00000 :: u32) 19 then f32_neg_zero else f32_pos_zero)"
    by blast
  then show "value32 (FromRaw 0x7F00000 :: float20) = f32_pos_zero" by simp
  have "take_bit 15 (0x8000 :: u32) = 0" by simp
  with FromRaw_signed_zero [of "0x8000"]
  have "value32 (FromRaw 0x8000 :: float16)
          = (if bit (0x8000 :: u32) 15 then f32_neg_zero else f32_pos_zero)"
    by blast
  then show "value32 (FromRaw 0x8000 :: float16) = f32_neg_zero" by simp
qed

text \<open>
  Claim C3. For each of the three instantiations and every raw input that fits in
  \<open>M + E + 1\<close> bits and has a bit set among its low \<open>M + E\<close> bits, \<^verbatim>\<open>FromRaw\<close> returns the
  float whose pattern is \<^verbatim>\<open>sign<<31 | (exponent+bias)<<23 | mantissa<<(23-M)\<close>, with
  \<open>bias = 128 - 2^(E-1)\<close>, the exponent bits \<open>[M, M+E)\<close> and the mantissa bits \<open>[0, M)\<close>
  of the input.
\<close>

theorem FromRaw_normalized:
  "(hex < 2 ^ 24 \<and> take_bit 23 hex \<noteq> 0 \<longrightarrow>
      value32 (FromRaw hex :: float24) = normalized_pattern 16 7 hex)
   \<and> (hex < 2 ^ 20 \<and> take_bit 19 hex \<noteq> 0 \<longrightarrow>
      value32 (FromRaw hex :: float20) = normalized_pattern 12 7 hex)
   \<and> (hex < 2 ^ 16 \<and> take_bit 15 hex \<noteq> 0 \<longrightarrow>
      value32 (FromRaw hex :: float16) = normalized_pattern 10 5 hex)"
proof (intro conjI impI)
  show "value32 (FromRaw hex :: float24) = normalized_pattern 16 7 hex"
    if "hex < 2 ^ 24 \<and> take_bit 23 hex \<noteq> 0"
    using FromRaw_normalized_path [where 'm = 16 and 'e = 7 and hex = hex] that by simp
  show "value32 (FromRaw hex :: float20) = normalized_pattern 12 7 hex"
    if "hex < 2 ^ 20 \<and> take_bit 19 hex \<noteq> 0"
    using FromRaw_normalized_path [where 'm = 12 and 'e = 7 and hex = hex] that by simp
  show "value32 (FromRaw hex :: float16) = normalized_pattern 10 5 hex"
    if "hex < 2 ^ 16 \<and> take_bit 15 hex \<noteq> 0"
    using FromRaw_normalized_path [where 'm = 10 and 'e = 5 and hex = hex] that by simp
qed

theorem FromRaw_normalized_witness:
  "value32 (FromRaw 0x3F0000 :: float24) = 0x3F800000
   \<and> value32 (FromRaw 0xC0000 :: float20) = 0xC0000000
   \<and> value32 (FromRaw 0x3E00 :: float16) = 0x3FC00000"
proof (intro conjI)
  have "(0x3F0000 :: u32) < 2 ^ 24 \<and> take_bit 23 (0x3F0000 :: u32) \<noteq> 0" by simp
  with FromRaw_normalized [of "0x3F0000"]
  have "value32 (FromRaw 0x3F0000 :: float24) = normalized_pattern 16 7 0x3F0000" by blast
  then show "value32 (FromRaw 0x3F0000 :: float24) = 0x3F800000"
    by (simp add: normalized_pattern_def)
  have "(0xC0000 :: u32) < 2 ^ 20 \<and> take_bit 19 (0xC0000 :: u32) \<noteq> 0" by simp
  with FromRaw_normalized [of "0xC0000"]
  have "value32 (FromRaw 0xC0000 :: float20) = normalized_pattern 12 7 0xC0000" by blast
  then show "value32 (FromRaw 0xC0000 :: float20) = 0xC0000000"
    by (simp add: normalized_pattern_def)
  have "(0x3E00 :: u32) < 2 ^ 16 \<and> take_bit 15 (0x3E00 :: u32) \<noteq> 0" by simp
  with FromRaw_normalized [of "0x3E00"]
  have "value32 (FromRaw 0x3E00 :: float16) = normalized_pattern 10 5 0x3E00" by blast
  then show "value32 (FromRaw 0x3E00 :: float16) = 0x3FC00000"
    by (simp add: normalized_pattern_def)
qed

subsection \<open>The fields of a decoded float\<close>

text \<open>
  The three parts of the pattern do not overlap: the decoded float has the sign bit of
  the input, the biased exponent \<open>exponent + bias\<close> and the fraction
  \<open>mantissa * 2 ^ (23 - M)\<close>. Its exponent field is neither 0 nor 255, so the normalized
  path yields a normal finite float.
\<close>

lemma normalized_fields:
  assumes "M \<le> 23" "unat (128 - 2 ^ (E - 1) :: u32) + 2 ^ E \<le> 256"
  shows "f32_sign (normalized_pattern M E hex) = bit hex (M + E)"
    and "f32_exponent (normalized_pattern M E hex)
           = unat (take_bit E (drop_bit M hex)) + unat (128 - 2 ^ (E - 1) :: u32)"
    and "f32_fraction (normalized_pattern M E hex) = unat (take_bit M hex) * 2 ^ (23 - M)"
proof -
  let ?x = "take_bit E (drop_bit M hex) + (128 - 2 ^ (E - 1))"
  let ?s = "if bit hex (M + E) then 1 else 0 :: u32"
  have x8: "?x = take_bit 8 ?x"
    using biased_exponent(1) [OF assms(2), of "drop_bit M hex"] by simp
  have np: "normalized_pattern M E hex
      = push_bit 31 ?s OR push_bit 23 (take_bit 8 ?x) OR push_bit (23 - M) (take_bit M hex)"
    unfolding normalized_pattern_def Let_def using x8 by simp
  show "f32_sign (normalized_pattern M E hex) = bit hex (M + E)"
    unfolding f32_sign_def np fields_of_pattern(3) [OF assms(1)] by simp
  show "f32_exponent (normalized_pattern M E hex)
           = unat (take_bit E (drop_bit M hex)) + unat (128 - 2 ^ (E - 1) :: u32)"
    unfolding f32_exponent_def np fields_of_pattern(1) [OF assms(1)]
    using x8 biased_exponent(2) [OF assms(2), of "drop_bit M hex"] by simp
  have "unat (take_bit M hex) < 2 ^ M"
    by (simp add: unsigned_take_bit_eq)
  then have "unat (take_bit M hex) * 2 ^ (23 - M) < 2 ^ M * 2 ^ (23 - M)"
    by simp
  also have "\<dots> = 2 ^ 23"
    using assms(1) by (simp flip: power_add)
  finally have "unat (take_bit M hex) * 2 ^ (23 - M) < 2 ^ LENGTH(32)"
    by simp
  then have "take_bit LENGTH(32) (unat (take_bit M hex) * 2 ^ (23 - M))
      = unat (take_bit M hex) * 2 ^ (23 - M)"
    by (rule take_bit_nat_eq_self)
  moreover have "unat (push_bit (23 - M) (take_bit M hex))
      = take_bit LENGTH(32) (push_bit (23 - M) (unat (take_bit M hex)))"
    by (rule unsigned_push_bit_eq)
  ultimately have "unat (push_bit (23 - M) (take_bit M hex)) = unat (take_bit M hex) * 2 ^ (23 - M)"
    by (simp only: push_bit_eq_mult)
  then show "f32_fraction (normalized_pattern M E hex) = unat (take_bit M hex) * 2 ^ (23 - M)"
    unfolding f32_fraction_def np fields_of_pattern(2) [OF assms(1)] by simp
qed

lemma normalized_float24_fields:
  "f32_sign (normalized_pattern 16 7 hex) = bit hex 23"
  "f32_exponent (normalized_pattern 16 7 hex) = unat (take_bit 7 (drop_bit 16 hex)) + 64"
  "f32_fraction (normalized_pattern 16 7 hex) = unat (take_bit 16 hex) * 128"
  using normalized_fields [of 16 7 hex] by simp_all

lemma normalized_float20_fields:
  "f32_sign (normalized_pattern 12 7 hex) = bit hex 19"
  "f32_exponent (normalized_pattern 12 7 hex) = unat (take_bit 7 (drop_bit 12 hex)) + 64"
  "f32_fraction (normalized_pattern 12 7 hex) = unat (take_bit 12 hex) * 2048"
  using normalized_fields [of 12 7 hex] by simp_all

lemma normalized_float16_fields:
  "f32_sign (normalized_pattern 10 5 hex) = bit hex 15"
  "f32_exponent (normalized_pattern 10 5 hex) = unat (take_bit 5 (drop_bit 10 hex)) + 112"
  "f32_fraction (normalized_pattern 10 5 hex) = unat (take_bit 10 hex) * 8192"
  using normalized_fields [of 10 5 hex] by simp_all

lemma normalized_is_normal:
  "0 < f32_exponent (normalized_pattern 16 7 hex) \<and> f32_exponent (normalized_pattern 16 7 hex) < 255"
  "0 < f32_exponent (normalized_pattern 12 7 hex) \<and> f32_exponent (normalized_pattern 12 7 hex) < 255"
  "0 < f32_exponent (normalized_pattern 10 5 hex) \<and> f32_exponent (normalized_pattern 10 5 hex) < 255"
proof -
  have "unat (take_bit 7 (drop_bit 16 hex)) < 2 ^ 7" "unat (take_bit 7 (drop_bit 12 hex)) < 2 ^ 7"
    "unat (take_bit 5 (drop_bit 10 hex)) < 2 ^ 5"
    by (simp_all only: unsigned_take_bit_eq take_bit_nat_less_exp)
  then show
    "0 < f32_exponent (normalized_pattern 16 7 hex) \<and> f32_exponent (normalized_pattern 16 7 hex) < 255"
    "0 < f32_exponent (normalized_pattern 12 7 hex) \<and> f32_exponent (normalized_pattern 12 7 hex) < 255"
    "0 < f32_exponent (normalized_pattern 10 5 hex) \<and> f32_exponent (normalized_pattern 10 5 hex) < 255"
    by (simp_all add: normalized_float24_fields normalized_float20_fields normalized_float16_fields)
qed

section \<open>Custom float: arithmetic\<close>

text \<open>
  Claim C1. For every instantiation \<^verbatim>\<open>Float<M, E>\<close> (the three of the header among them),
  every native product \<open>fmul\<close> and all operands \<open>a\<close>, \<open>b\<close>: when one operand's value compares
  equal to zero and the other's is not a NaN, \<^verbatim>\<open>a * b\<close> is \<^verbatim>\<open>Zero()\<close>, the float \<open>+0.0\<close>;
  otherwise \<^verbatim>\<open>a * b\<close> is the native product. In particular zero times infinity is
  \<^verbatim>\<open>FromFloat32(0.0)\<close>, also under \<^verbatim>\<open>==\<close>; a NaN times a zero is the native product of the
  two, and so a NaN, since the native product of a NaN is one.
\<close>

theorem Float_times_override:
  fixes a b :: "('m, 'e) Float"
  shows
  "((f32_eq0 (value32 a) \<and> \<not> isnan (value32 b)) \<or> (f32_eq0 (value32 b) \<and> \<not> isnan (value32 a))
      \<longrightarrow> Float_times fmul a b = Float_Zero \<and> value32 (Float_times fmul a b) = f32_pos_zero)
   \<and> (\<not> ((f32_eq0 (value32 a) \<and> \<not> isnan (value32 b)) \<or> (f32_eq0 (value32 b) \<and> \<not> isnan (value32 a)))
      \<longrightarrow> Float_times fmul a b = FromFloat32 (fmul (value32 a) (value32 b)))
   \<and> Float_times fmul (FromFloat32 f32_pos_zero) (FromFloat32 f32_pos_inf)
        = (FromFloat32 f32_pos_zero :: ('m, 'e) Float)
   \<and> Float_eq (Float_times fmul (FromFloat32 f32_pos_zero) (FromFloat32 f32_pos_inf))
        (FromFloat32 f32_pos_zero :: ('m, 'e) Float)
   \<and> (isnan n \<and> f32_eq0 z \<longrightarrow>
        Float_times fmul (FromFloat32 n) (FromFloat32 z) = (FromFloat32 (fmul n z) :: ('m, 'e) Float))
   \<and> (isnan (fmul f32_qnan f32_pos_zero) \<longrightarrow>
        isnan (value32 (Float_times fmul (FromFloat32 f32_qnan)
                          (FromFloat32 f32_pos_zero :: ('m, 'e) Float))))"
proof (intro conjI impI)
  assume "(f32_eq0 (value32 a) \<and> \<not> isnan (value32 b)) \<or> (f32_eq0 (value32 b) \<and> \<not> isnan (value32 a))"
  then show "Float_times fmul a b = Float_Zero"
    by (simp add: Float_times_def)
  then show "value32 (Float_times fmul a b) = f32_pos_zero"
    by (simp add: Float_Zero_def FromFloat32_def)
next
  assume "\<not> ((f32_eq0 (value32 a) \<and> \<not> isnan (value32 b)) \<or> (f32_eq0 (value32 b) \<and> \<not> isnan (value32 a)))"
  then show "Float_times fmul a b = FromFloat32 (fmul (value32 a) (value32 b))"
    unfolding Float_times_def ToFloat32_def by (simp only: if_False)
next
  show z: "Float_times fmul (FromFloat32 f32_pos_zero) (FromFloat32 f32_pos_inf)
        = (FromFloat32 f32_pos_zero :: ('m, 'e) Float)"
    by (simp add: Float_times_def Float_Zero_def FromFloat32_def f32_consts)
  show "Float_eq (Float_times fmul (FromFloat32 f32_pos_zero) (FromFloat32 f32_pos_inf))
        (FromFloat32 f32_pos_zero :: ('m, 'e) Float)"
    unfolding z by (simp add: Float_eq_def f32_eq_def ToFloat32_def FromFloat32_def f32_consts)
next
  assume "isnan n \<and> f32_eq0 z"
  then show "Float_times fmul (FromFloat32 n) (FromFloat32 z) = (FromFloat32 (fmul n z) :: ('m, 'e) Float)"
    by (simp add: Float_times_def FromFloat32_def ToFloat32_def nan_not_eq0)
next
  assume "isnan (fmul f32_qnan f32_pos_zero)"
  then show "isnan (value32 (Float_times fmul (FromFloat32 f32_qnan)
                               (FromFloat32 f32_pos_zero :: ('m, 'e) Float)))"
    by (simp add: Float_times_def FromFloat32_def ToFloat32_def f32_consts)
qed

theorem Float_times_override_witness:
  "Float_times f32_mul (FromFloat32 f32_neg_zero) (FromFloat32 f32_pos_inf) = (Float_Zero :: float24)
   \<and> Float_times f32_mul (FromFloat32 0x40000000) (FromFloat32 0x40400000)
        = (FromFloat32 0x40C00000 :: float20)
   \<and> Float_times f32_mul (FromFloat32 0xFFC00001) (FromFloat32 f32_neg_zero)
        = (FromFloat32 f32_qnan :: float16)
   \<and> isnan (value32 (Float_times f32_mul (FromFloat32 f32_qnan) (FromFloat32 f32_pos_zero :: float16)))"
proof (intro conjI)
  let ?z = "FromFloat32 f32_neg_zero :: float24" and ?i = "FromFloat32 f32_pos_inf :: float24"
  have "(f32_eq0 (value32 ?z) \<and> \<not> isnan (value32 ?i)) \<or> (f32_eq0 (value32 ?i) \<and> \<not> isnan (value32 ?z))"
    by (simp add: FromFloat32_def f32_consts)
  with Float_times_override [of ?z ?i f32_mul]
  show "Float_times f32_mul ?z ?i = Float_Zero" by blast
next
  let ?a = "FromFloat32 0x40000000 :: float20" and ?b = "FromFloat32 0x40400000 :: float20"
  have "\<not> ((f32_eq0 (value32 ?a) \<and> \<not> isnan (value32 ?b)) \<or> (f32_eq0 (value32 ?b) \<and> \<not> isnan (value32 ?a)))"
    by (simp add: FromFloat32_def f32_eq0_def f32_exponent_def)
  with Float_times_override [of ?a ?b f32_mul]
  have "Float_times f32_mul ?a ?b = FromFloat32 (f32_mul (value32 ?a) (value32 ?b))" by blast
  then show "Float_times f32_mul ?a ?b = FromFloat32 0x40C00000"
    by (simp add: FromFloat32_def f32_mul_2_3)
next
  have n: "isnan 0xFFC00001 \<and> f32_eq0 f32_neg_zero"
    by (simp add: isnan_def f32_exponent_def f32_fraction_def f32_consts)
  with Float_times_override [where fmul = f32_mul and n = "0xFFC00001" and z = f32_neg_zero
      and 'm = 10 and 'e = 5]
  have "Float_times f32_mul (FromFloat32 0xFFC00001) (FromFloat32 f32_neg_zero)
      = (FromFloat32 (f32_mul 0xFFC00001 f32_neg_zero) :: float16)" by blast
  moreover have "f32_mul 0xFFC00001 f32_neg_zero = f32_qnan"
    using n by (simp add: f32_mul_def)
  ultimately show "Float_times f32_mul (FromFloat32 0xFFC00001) (FromFloat32 f32_neg_zero)
      = (FromFloat32 f32_qnan :: float16)" by simp
next
  have "isnan (f32_mul f32_qnan f32_pos_zero)"
    by (simp add: f32_mul_nan f32_consts)
  with Float_times_override [where fmul = f32_mul and 'm = 10 and 'e = 5]
  show "isnan (value32 (Float_times f32_mul (FromFloat32 f32_qnan) (FromFloat32 f32_pos_zero :: float16)))"
    by blast
qed

text \<open>
  Claim C10. For every instantiation \<^verbatim>\<open>Float<M, E>\<close>, all operands and whatever the native
  operations compute, each compound assignment leaves in \<^verbatim>\<open>a\<close> the value the binary
  operator returns: \<^verbatim>\<open>a *= b\<close> gives \<^verbatim>\<open>a * b\<close> (the forced zero included, whose condition
  \<^verbatim>\<open>operator*=\<close> repeats), and \<^verbatim>\<open>/=\<close>, \<^verbatim>\<open>+=\<close>, \<^verbatim>\<open>-=\<close> give \<^verbatim>\<open>a / b\<close>, \<^verbatim>\<open>a + b\<close>, \<^verbatim>\<open>a - b\<close>.
  The two results are the same stored float, bit for bit.
\<close>

theorem Float_compound_assign_agrees:
  fixes a b :: "('m, 'e) Float"
  shows "Float_times_assign fmul a b = Float_times fmul a b
   \<and> Float_divide_assign fdiv a b = Float_divide fdiv a b
   \<and> Float_plus_assign fadd a b = Float_plus fadd a b
   \<and> Float_minus_assign fsub a b = Float_minus fsub a b"
  by (simp add: Float_times_assign_def Float_times_def Float_divide_assign_def Float_divide_def
        Float_plus_assign_def Float_plus_def Float_minus_assign_def Float_minus_def
        FromFloat32_def ToFloat32_def)

end
